theory Spec2Isabelle
  imports Complex_Main "HOL-Library.Product_Lexorder" "HOL-Library.AList"
    "HOL-Library.Code_Target_Nat"
begin

section \<open>Python values the program handles\<close>

text \<open>
  The exceptions that can leave one of the functions of \<^verbatim>\<open>mains.py\<close>. A function that can
  raise returns \<open>pyerr + 'a\<close>, with \<open>Inl\<close> for the exception.
\<close>

datatype pyerr =
    TypeError
  | ValueError
  | AttributeError
  | JSONDecodeError
  | EOFError
  | OSError
  | RequestException

text \<open>
  A Python \<^verbatim>\<open>str\<close> is the list of its code points, so that \<^verbatim>\<open>len\<close>, slicing, iteration,
  \<^verbatim>\<open>split\<close> and \<^verbatim>\<open>strip\<close> count and see characters as Python does. \<open>py\<close> writes an ASCII
  literal as such a list.
\<close>

type_synonym pystr = "nat list"

definition py :: "string \<Rightarrow> pystr" where
  "py s = map of_char s"

text \<open>
  What \<^verbatim>\<open>response.json()\<close> returns: a JSON value. A dict is represented by an association
  list that is read with \<open>map_of\<close>.
\<close>

datatype json =
    JNull
  | JBool bool
  | JNum real
  | JStr pystr
  | JArr "json list"
  | JObj "(pystr \<times> json) list"

text \<open>\<^verbatim>\<open>d.get(key, default)\<close>: only a dict has the method.\<close>

definition py_get :: "json \<Rightarrow> pystr \<Rightarrow> json \<Rightarrow> pyerr + json" where
  "py_get d key dflt =
     (case d of
        JObj kv \<Rightarrow> (case map_of kv key of Some v \<Rightarrow> Inr v | None \<Rightarrow> Inr dflt)
      | _ \<Rightarrow> Inl AttributeError)"

text \<open>
  \<^verbatim>\<open>xs[:n]\<close>: a negative \<open>n\<close> counts from the end. Lists and strings can be sliced; any
  other JSON value raises (\<^verbatim>\<open>TypeError\<close> for a number, a boolean and \<^verbatim>\<open>None\<close>; for a dict
  \<^verbatim>\<open>TypeError\<close> or, from Python 3.12 on, \<^verbatim>\<open>KeyError\<close>, both written \<open>TypeError\<close> here).
\<close>

definition slice_to :: "'a list \<Rightarrow> int \<Rightarrow> 'a list" where
  "slice_to xs n = (if 0 \<le> n then take (nat n) xs else take (nat (int (length xs) + n)) xs)"

definition py_slice_to :: "json \<Rightarrow> int \<Rightarrow> pyerr + json" where
  "py_slice_to v n =
     (case v of
        JArr xs \<Rightarrow> Inr (JArr (slice_to xs n))
      | JStr s \<Rightarrow> Inr (JStr (slice_to s n))
      | _ \<Rightarrow> Inl TypeError)"

text \<open>
  The elements a \<^verbatim>\<open>for\<close> loop over a value returned by \<open>py_slice_to\<close> visits (a string
  yields its characters, each a string of length one), and \<^verbatim>\<open>len\<close> and truth value of
  such a value.
\<close>

definition py_iter :: "json \<Rightarrow> json list" where
  "py_iter v = (case v of JArr xs \<Rightarrow> xs | JStr s \<Rightarrow> map (\<lambda>c. JStr [c]) s | _ \<Rightarrow> [])"

definition py_len :: "json \<Rightarrow> nat" where
  "py_len v = length (py_iter v)"

definition truthy :: "json \<Rightarrow> bool" where
  "truthy v = (py_iter v \<noteq> [])"

subsection \<open>Strings\<close>

text \<open>\<^verbatim>\<open>str(n)\<close> for an integer, and zero padding as \<^verbatim>\<open>%04d\<close> and \<^verbatim>\<open>%02d\<close> do it.\<close>

definition digit_char :: "nat \<Rightarrow> nat" where
  "digit_char n = py ''0123456789'' ! (n mod 10)"

fun str_nat :: "nat \<Rightarrow> pystr" where
  "str_nat n = (if n < 10 then [digit_char n] else str_nat (n div 10) @ [digit_char n])"

declare str_nat.simps [simp del]

definition str_int :: "int \<Rightarrow> pystr" where
  "str_int i = (if i < 0 then (of_char CHR ''-'') # str_nat (nat (- i)) else str_nat (nat i))"

definition zero_pad :: "nat \<Rightarrow> nat \<Rightarrow> pystr" where
  "zero_pad width n = replicate (width - length (str_nat n)) (of_char CHR ''0'') @ str_nat n"

text \<open>
  \<^verbatim>\<open>s.strip()\<close> removes leading and trailing whitespace: the characters for which
  \<^verbatim>\<open>str.isspace\<close> holds. They are tab, line feed, vertical tab, form feed, carriage return,
  the separators 0x1C to 0x1F, the space, and beyond ASCII: U+0085, U+00A0, U+1680, U+2000
  to U+200A, U+2028, U+2029, U+202F, U+205F and U+3000.
\<close>

definition is_space :: "nat \<Rightarrow> bool" where
  "is_space c = (c \<in> set [0x09, 0x0A, 0x0B, 0x0C, 0x0D, 0x1C, 0x1D, 0x1E, 0x1F, 0x20,
                            0x85, 0xA0, 0x1680, 0x2000, 0x2001, 0x2002, 0x2003, 0x2004, 0x2005,
                            0x2006, 0x2007, 0x2008, 0x2009, 0x200A, 0x2028, 0x2029, 0x202F,
                            0x205F, 0x3000])"

definition strip :: "pystr \<Rightarrow> pystr" where
  "strip s = rev (dropWhile is_space (rev (dropWhile is_space s)))"

text \<open>\<^verbatim>\<open>s.split(sep)\<close> for a separator of one character: never an empty list.\<close>

fun split_on :: "nat \<Rightarrow> pystr \<Rightarrow> pystr list" where
  "split_on sep [] = [[]]"
| "split_on sep (c # cs) =
     (if c = sep then [] # split_on sep cs
      else (case split_on sep cs of [] \<Rightarrow> [[c]] | x # xs \<Rightarrow> (c # x) # xs))"

subsection \<open>Dates and date-times\<close>

text \<open>
  \<^verbatim>\<open>datetime.date\<close> and \<^verbatim>\<open>datetime.datetime\<close>. A date-time is naive
  (\<open>dt_utcoffset = None\<close>) or aware (its offset from UTC, in microseconds).
\<close>

record pydate =
  d_year :: nat
  d_month :: nat
  d_day :: nat

record pydatetime =
  dt_year :: nat
  dt_month :: nat
  dt_day :: nat
  dt_hour :: nat
  dt_minute :: nat
  dt_second :: nat
  dt_microsecond :: nat
  dt_utcoffset :: "int option"

text \<open>\<^verbatim>\<open>dt.date()\<close>\<close>

definition date_of :: "pydatetime \<Rightarrow> pydate" where
  "date_of dt = \<lparr>d_year = dt_year dt, d_month = dt_month dt, d_day = dt_day dt\<rparr>"

text \<open>Dates compare as the tuples (year, month, day).\<close>

definition date_key :: "pydate \<Rightarrow> nat \<times> nat \<times> nat" where
  "date_key d = (d_year d, d_month d, d_day d)"

definition date_gt :: "pydate \<Rightarrow> pydate \<Rightarrow> bool" where
  "date_gt a b = (date_key b < date_key a)"

text \<open>\<^verbatim>\<open>d.isoformat()\<close>, which is also \<^verbatim>\<open>str(d)\<close>: \<^verbatim>\<open>%04d-%02d-%02d\<close>.\<close>

definition date_isoformat :: "pydate \<Rightarrow> pystr" where
  "date_isoformat d = zero_pad 4 (d_year d) @ py ''-'' @ zero_pad 2 (d_month d) @ py ''-''
       @ zero_pad 2 (d_day d)"

text \<open>
  The proleptic Gregorian ordinal of a date (\<^verbatim>\<open>toordinal\<close>), and the instant of an aware
  date-time in microseconds, which is what the comparison of two aware date-times compares.
\<close>

definition is_leap :: "nat \<Rightarrow> bool" where
  "is_leap y = (if y mod 400 = 0 then True else if y mod 100 = 0 then False else y mod 4 = 0)"

definition days_in_month :: "nat \<Rightarrow> nat \<Rightarrow> nat" where
  "days_in_month y m =
     (if m = 2 then (if is_leap y then 29 else 28)
      else if m \<in> set [4, 6, 9, 11] then 30 else 31)"

definition days_before_year :: "nat \<Rightarrow> nat" where
  "days_before_year y = (y - 1) * 365 + (y - 1) div 4 - (y - 1) div 100 + (y - 1) div 400"

definition days_before_month :: "nat \<Rightarrow> nat \<Rightarrow> nat" where
  "days_before_month y m = sum_list (map (days_in_month y) [1..<m])"

definition toordinal :: "nat \<Rightarrow> nat \<Rightarrow> nat \<Rightarrow> nat" where
  "toordinal y m d = days_before_year y + days_before_month y m + d"

definition local_micros :: "pydatetime \<Rightarrow> int" where
  "local_micros dt =
     (((int (toordinal (dt_year dt) (dt_month dt) (dt_day dt)) * 24 + int (dt_hour dt)) * 60
        + int (dt_minute dt)) * 60 + int (dt_second dt)) * 1000000 + int (dt_microsecond dt)"

definition dt_key :: "pydatetime \<Rightarrow> nat \<times> nat \<times> nat \<times> nat \<times> nat \<times> nat \<times> nat" where
  "dt_key dt = (dt_year dt, dt_month dt, dt_day dt, dt_hour dt, dt_minute dt, dt_second dt,
                dt_microsecond dt)"

text \<open>
  \<^verbatim>\<open>a < b\<close> and \<^verbatim>\<open>a <= b\<close> on date-times: two naive ones compare as the tuples of their
  fields, two aware ones by their instants, and a naive one against an aware one raises
  \<^verbatim>\<open>TypeError\<close> (can't compare offset-naive and offset-aware datetimes).
\<close>

definition dt_lt :: "pydatetime \<Rightarrow> pydatetime \<Rightarrow> pyerr + bool" where
  "dt_lt a b =
     (case (dt_utcoffset a, dt_utcoffset b) of
        (None, None) \<Rightarrow> Inr (dt_key a < dt_key b)
      | (Some oa, Some ob) \<Rightarrow> Inr (local_micros a - oa < local_micros b - ob)
      | _ \<Rightarrow> Inl TypeError)"

definition dt_le :: "pydatetime \<Rightarrow> pydatetime \<Rightarrow> pyerr + bool" where
  "dt_le a b =
     (case (dt_utcoffset a, dt_utcoffset b) of
        (None, None) \<Rightarrow> Inr (dt_key a \<le> dt_key b)
      | (Some oa, Some ob) \<Rightarrow> Inr (local_micros a - oa \<le> local_micros b - ob)
      | _ \<Rightarrow> Inl TypeError)"

section \<open>The world outside the program\<close>

text \<open>
  What the program reads and cannot decide is a parameter, \<open>env\<close>: the two parsers of the
  libraries (\<^verbatim>\<open>datetime.fromisoformat\<close> and dateutil's \<^verbatim>\<open>isoparse\<close>, \<open>None\<close> when they
  raise), \<^verbatim>\<open>date.today()\<close>, the server behind \<^verbatim>\<open>requests.get\<close> (which sees the requests
  made before), whether the file system lets a directory be made and a file be opened, and
  whether the platform's \<^verbatim>\<open>strftime\<close> pads a year below 1000 to four digits.
  What the program changes is a state, \<open>world\<close>: the lines still to be read from standard
  input, what was written to standard output (one entry for each \<^verbatim>\<open>print\<close>, without its
  final newline, and for each prompt), the requests sent, and the directories and files
  made. The content of a file is represented by the list that \<^verbatim>\<open>json.dump\<close> was given.
\<close>

text \<open>
  A response: \<^verbatim>\<open>response.status_code\<close>, \<^verbatim>\<open>response.text\<close> and what \<^verbatim>\<open>response.json()\<close>
  returns, \<open>None\<close> when the body is not JSON and it raises.
\<close>

record response =
  status_code :: int
  resp_text :: pystr
  json_body :: "json option"

type_synonym request = "pystr \<times> pystr \<times> int"

record review =
  rv_source :: pystr
  rv_company :: pystr
  rv_title :: json
  rv_review :: json
  rv_reviewer :: json
  rv_rating :: json
  rv_date :: pystr

record env =
  fromisoformat :: "pystr \<Rightarrow> pydatetime option"
  isoparse :: "pystr \<Rightarrow> pydatetime option"
  today :: pydate
  http_get :: "request list \<Rightarrow> request \<Rightarrow> pyerr + response"
  makedirs_ok :: "pystr \<Rightarrow> bool"
  open_ok :: "pystr \<Rightarrow> bool"
  strftime_pads_year :: bool

record world =
  stdin :: "pystr list"
  stdout :: "pystr list"
  requests :: "request list"
  dirs :: "pystr list"
  files :: "(pystr \<times> review list) list"

definition print :: "pystr \<Rightarrow> world \<Rightarrow> world" where
  "print s w = w\<lparr>stdout := stdout w @ [s]\<rparr>"

text \<open>\<^verbatim>\<open>input(prompt)\<close>: writes the prompt, then reads a line; \<^verbatim>\<open>EOFError\<close> at end of input.\<close>

definition input_line :: "pystr \<Rightarrow> world \<Rightarrow> world \<times> (pyerr + pystr)" where
  "input_line prompt w =
     (case stdin w of
        [] \<Rightarrow> (print prompt w, Inl EOFError)
      | l # ls \<Rightarrow> (print prompt (w\<lparr>stdin := ls\<rparr>), Inr l))"

section \<open>Fetch reviews from Wextractor\<close>

text \<open>
  \<^verbatim>\<open>fetch_g2_reviews(company, auth_token, offset=0, batch_size=50)\<close>. The request is the
  triple of the parameters sent; the URL is fixed.
\<close>

definition api_error_msg :: "pystr \<Rightarrow> response \<Rightarrow> pystr" where
  "api_error_msg company resp =
     py ''API Error for '' @ company @ py '': '' @ str_int (status_code resp) @ py '' '' @ resp_text resp"

definition fetch_g2_reviews ::
  "env \<Rightarrow> pystr \<Rightarrow> pystr \<Rightarrow> int \<Rightarrow> int \<Rightarrow> world \<Rightarrow> world \<times> (pyerr + json)" where
  "fetch_g2_reviews e company auth_token offset batch_size w =
     (let params = (company, auth_token, offset);
          w1 = w\<lparr>requests := requests w @ [params]\<rparr>
      in case http_get e (requests w) params of
           Inl err \<Rightarrow> (w1, Inl err)
         | Inr resp \<Rightarrow>
             if status_code resp \<noteq> 200 then (print (api_error_msg company resp) w1, Inr (JArr []))
             else (case json_body resp of
                     None \<Rightarrow> (w1, Inl JSONDecodeError)
                   | Some data \<Rightarrow>
                       (case py_get data (py ''reviews'') (JArr []) of
                          Inl err \<Rightarrow> (w1, Inl err)
                        | Inr v \<Rightarrow> (w1, py_slice_to v batch_size))))"

section \<open>Fetch reviews within a valid date range\<close>

text \<open>
  The body of the \<^verbatim>\<open>for r in reviews\<close> loop, for one record: it goes on to the next record
  with a new accumulator, returns from the function, or raises.
\<close>

datatype 'a flow = Continue 'a | Return 'a | Raise pyerr

text \<open>
  \<^verbatim>\<open>isoparse(r.get("datetime", ""))\<close> under the bare \<^verbatim>\<open>except\<close>: \<open>None\<close> when anything is
  raised (no \<^verbatim>\<open>get\<close> on a value that is not a dict, \<^verbatim>\<open>isoparse\<close> on a value that is not a
  string, or a string it rejects).
\<close>

definition try_isoparse :: "env \<Rightarrow> json \<Rightarrow> pydatetime option" where
  "try_isoparse e r =
     (case py_get r (py ''datetime'') (JStr []) of
        Inl err \<Rightarrow> None
      | Inr v \<Rightarrow> (case v of JStr s \<Rightarrow> isoparse e s | _ \<Rightarrow> None))"

text \<open>
  \<^verbatim>\<open>r.get(key, "")\<close> where the normalized record is built. The record is a dict there, since
  \<^verbatim>\<open>r.get("datetime", "")\<close> has succeeded on it; the other branch is never taken.
\<close>

definition field :: "json \<Rightarrow> pystr \<Rightarrow> json" where
  "field r key = (case py_get r key (JStr []) of Inr v \<Rightarrow> v | Inl err \<Rightarrow> JNull)"

text \<open>
  \<^verbatim>\<open>dt.strftime("%Y-%m-%d")\<close>. Month and day have two digits. The year is written by the
  C library: with four digits from 1000 on, and below 1000 padded with zeros on some
  platforms and not on others (glibc writes 999).
\<close>

definition strftime_ymd :: "env \<Rightarrow> pydatetime \<Rightarrow> pystr" where
  "strftime_ymd e dt =
     (if strftime_pads_year e then zero_pad 4 (dt_year dt) else str_nat (dt_year dt))
       @ py ''-'' @ zero_pad 2 (dt_month dt) @ py ''-'' @ zero_pad 2 (dt_day dt)"

definition normalized :: "env \<Rightarrow> pystr \<Rightarrow> json \<Rightarrow> pydatetime \<Rightarrow> review" where
  "normalized e company r review_date =
     \<lparr>rv_source = py ''g2'', rv_company = company, rv_title = field r (py ''title''),
      rv_review = field r (py ''text''), rv_reviewer = field r (py ''reviewer''),
      rv_rating = field r (py ''rating''), rv_date = strftime_ymd e review_date\<rparr>"

text \<open>\<^verbatim>\<open>start_date <= review_date <= end_date\<close>: the second comparison only after the first.\<close>

definition in_window :: "pydatetime \<Rightarrow> pydatetime \<Rightarrow> pydatetime \<Rightarrow> pyerr + bool" where
  "in_window start_date review_date end_date =
     (case dt_le start_date review_date of
        Inl err \<Rightarrow> Inl err
      | Inr b \<Rightarrow> if b then dt_le review_date end_date else Inr False)"

definition for_body ::
  "env \<Rightarrow> pystr \<Rightarrow> pydatetime \<Rightarrow> pydatetime \<Rightarrow> json \<Rightarrow> review list \<Rightarrow> review list flow" where
  "for_body e company start_date end_date r all_reviews =
     (case try_isoparse e r of
        None \<Rightarrow> Continue all_reviews
      | Some review_date \<Rightarrow>
          (case dt_lt review_date start_date of
             Inl err \<Rightarrow> Raise err
           | Inr older \<Rightarrow>
               if older then Return all_reviews
               else (case in_window start_date review_date end_date of
                       Inl err \<Rightarrow> Raise err
                     | Inr inside \<Rightarrow>
                         if inside then Continue (all_reviews @ [normalized e company r review_date])
                         else Continue all_reviews)))"

fun for_reviews ::
  "env \<Rightarrow> pystr \<Rightarrow> pydatetime \<Rightarrow> pydatetime \<Rightarrow> json list \<Rightarrow> review list \<Rightarrow> review list flow" where
  "for_reviews e company start_date end_date [] all_reviews = Continue all_reviews"
| "for_reviews e company start_date end_date (r # rs) all_reviews =
     (case for_body e company start_date end_date r all_reviews of
        Continue acc \<Rightarrow> for_reviews e company start_date end_date rs acc
      | Return acc \<Rightarrow> Return acc
      | Raise err \<Rightarrow> Raise err)"

text \<open>
  The body of \<^verbatim>\<open>while True\<close>, on the state (accumulator, offset, world): \<open>Inl\<close> is the
  state of the next iteration, \<open>Inr\<close> the end of the function with what it returns or
  raises.
\<close>

type_synonym loop_state = "review list \<times> int \<times> world"

definition while_body ::
  "env \<Rightarrow> pystr \<Rightarrow> pystr \<Rightarrow> pydatetime \<Rightarrow> pydatetime \<Rightarrow> loop_state
     \<Rightarrow> loop_state + world \<times> (pyerr + review list)" where
  "while_body e company auth_token start_date end_date st =
     (case st of (all_reviews, offset, w) \<Rightarrow>
        (case fetch_g2_reviews e company auth_token offset 50 w of
           (w1, Inl err) \<Rightarrow> Inr (w1, Inl err)
         | (w1, Inr reviews) \<Rightarrow>
             if \<not> truthy reviews then Inr (w1, Inr all_reviews)
             else (case for_reviews e company start_date end_date (py_iter reviews) all_reviews of
                     Raise err \<Rightarrow> Inr (w1, Inl err)
                   | Return acc \<Rightarrow> Inr (w1, Inr acc)
                   | Continue acc \<Rightarrow> Inl (acc, offset + int (py_len reviews), w1))))"

text \<open>The loop may run forever: \<open>None\<close> is not returning.\<close>

partial_function (option) while_loop ::
  "env \<Rightarrow> pystr \<Rightarrow> pystr \<Rightarrow> pydatetime \<Rightarrow> pydatetime \<Rightarrow> loop_state
     \<Rightarrow> (world \<times> (pyerr + review list)) option" where
  "while_loop e company auth_token start_date end_date st =
     (case while_body e company auth_token start_date end_date st of
        Inl st' \<Rightarrow> while_loop e company auth_token start_date end_date st'
      | Inr res \<Rightarrow> Some res)"

declare while_loop.simps [code]

text \<open>
  The state at the start of iteration \<open>n\<close> of the loop (counted from 0), when the loop gets
  that far: \<open>n\<close> times the body, each time with a next state.
\<close>

fun iterations ::
  "env \<Rightarrow> pystr \<Rightarrow> pystr \<Rightarrow> pydatetime \<Rightarrow> pydatetime \<Rightarrow> nat \<Rightarrow> loop_state
     \<Rightarrow> loop_state option" where
  "iterations e company auth_token start_date end_date 0 st = Some st"
| "iterations e company auth_token start_date end_date (Suc n) st =
     (case while_body e company auth_token start_date end_date st of
        Inl st' \<Rightarrow> iterations e company auth_token start_date end_date n st'
      | Inr res \<Rightarrow> None)"

definition fetching_msg :: "pystr \<Rightarrow> pydatetime \<Rightarrow> pydatetime \<Rightarrow> pystr" where
  "fetching_msg company start_date end_date =
     [0x0A] @ py ''Fetching reviews for '' @ company @ py '' from ''
       @ date_isoformat (date_of start_date) @ py '' to '' @ date_isoformat (date_of end_date)
       @ py ''...''"

definition fetch_reviews_in_date_range ::
  "env \<Rightarrow> pystr \<Rightarrow> pystr \<Rightarrow> pystr \<Rightarrow> pystr \<Rightarrow> world
     \<Rightarrow> (world \<times> (pyerr + review list)) option" where
  "fetch_reviews_in_date_range e company auth_token start_date_str end_date_str w =
     (case fromisoformat e start_date_str of
        None \<Rightarrow> Some (w, Inl ValueError)
      | Some start_date \<Rightarrow>
          (case fromisoformat e end_date_str of
             None \<Rightarrow> Some (w, Inl ValueError)
           | Some end_date \<Rightarrow>
               while_loop e company auth_token start_date end_date
                 ([], 0, print (fetching_msg company start_date end_date) w)))"

section \<open>Save reviews to JSON\<close>

definition output_file :: "pystr \<Rightarrow> pystr" where
  "output_file company = py ''output/'' @ company @ py ''_g2_reviews.json''"

definition saved_msg :: "pystr \<Rightarrow> review list \<Rightarrow> pystr" where
  "saved_msg company reviews =
     py ''Saved '' @ str_nat (length reviews) @ py '' reviews to '' @ output_file company"

definition save_reviews :: "env \<Rightarrow> pystr \<Rightarrow> review list \<Rightarrow> world \<Rightarrow> world \<times> (pyerr + unit)" where
  "save_reviews e company reviews w =
     (if \<not> makedirs_ok e (py ''output'') then (w, Inl OSError)
      else let w1 = w\<lparr>dirs := List.insert (py ''output'') (dirs w)\<rparr> in
        if \<not> open_ok e (output_file company) then (w1, Inl OSError)
        else (print (saved_msg company reviews)
                (w1\<lparr>files := AList.update (output_file company) reviews (files w1)\<rparr>), Inr ()))"

section \<open>Main\<close>

text \<open>
  \<^verbatim>\<open>[c.strip() for c in companies_input.split(",") if c.strip()]\<close>
\<close>

definition parse_companies :: "pystr \<Rightarrow> pystr list" where
  "parse_companies companies_input =
     map strip (filter (\<lambda>c. strip c \<noteq> []) (split_on (of_char CHR '','') companies_input))"

definition prompt_companies :: pystr where
  "prompt_companies = py ''Enter G2 company slugs separated by comma (e.g., jira, notion): ''"

definition prompt_token :: pystr where
  "prompt_token = py ''Enter your Wextractor auth token: ''"

definition prompt_start :: pystr where
  "prompt_start = py ''Enter start date (YYYY-MM-DD): ''"

definition prompt_end :: pystr where
  "prompt_end = py ''Enter end date (YYYY-MM-DD): ''"

text \<open>The messages of \<^verbatim>\<open>main\<close>; the signs before them are written as their code points.\<close>

definition msg_start_future :: pystr where
  "msg_start_future = [0x274C] @ py '' Start date cannot be in the future.''"

definition msg_end_future :: pystr where
  "msg_end_future = [0x26A0] @ py '' End date is in the future. Adjusting to today.''"

definition msg_start_after_end :: pystr where
  "msg_start_after_end = [0x274C] @ py '' Start date must be before end date.''"

definition msg_no_reviews :: "pystr \<Rightarrow> pystr" where
  "msg_no_reviews company = py ''No reviews found for '' @ company @ py '' in this date range.''"

definition msg_done :: pystr where
  "msg_done = [0x0A, 0x2705] @ py '' Done!''"

text \<open>The loop \<^verbatim>\<open>for company in companies\<close>; \<open>None\<close> when a collection does not return.\<close>

fun for_companies ::
  "env \<Rightarrow> pystr \<Rightarrow> pystr \<Rightarrow> pystr \<Rightarrow> pystr list \<Rightarrow> world \<Rightarrow> (world \<times> (pyerr + unit)) option" where
  "for_companies e auth_token start_str end_str [] w = Some (w, Inr ())"
| "for_companies e auth_token start_str end_str (company # cs) w =
     (case fetch_reviews_in_date_range e company auth_token start_str end_str w of
        None \<Rightarrow> None
      | Some (w1, Inl err) \<Rightarrow> Some (w1, Inl err)
      | Some (w1, Inr reviews) \<Rightarrow>
          if reviews = [] then
            for_companies e auth_token start_str end_str cs (print (msg_no_reviews company) w1)
          else (case save_reviews e company reviews w1 of
                  (w2, Inl err) \<Rightarrow> Some (w2, Inl err)
                | (w2, Inr u) \<Rightarrow> for_companies e auth_token start_str end_str cs w2))"

text \<open>
  What follows the date validation in \<^verbatim>\<open>main\<close>: the loop over the companies and the final
  message.
\<close>

definition fetch_for_each_company ::
  "env \<Rightarrow> pystr \<Rightarrow> pydate \<Rightarrow> pydate \<Rightarrow> pystr list \<Rightarrow> world \<Rightarrow> (world \<times> (pyerr + unit)) option" where
  "fetch_for_each_company e auth_token start_date end_date companies w =
     (case for_companies e auth_token (date_isoformat start_date) (date_isoformat end_date)
             companies w of
        None \<Rightarrow> None
      | Some (w1, Inl err) \<Rightarrow> Some (w1, Inl err)
      | Some (w1, Inr u) \<Rightarrow> Some (print msg_done w1, Inr ()))"

text \<open>The date validation of \<^verbatim>\<open>main\<close>, from the two parsed dates on.\<close>

definition date_validation ::
  "env \<Rightarrow> pystr \<Rightarrow> pydate \<Rightarrow> pydate \<Rightarrow> pystr list \<Rightarrow> world \<Rightarrow> (world \<times> (pyerr + unit)) option" where
  "date_validation e auth_token start_date end_date companies w =
     (if date_gt start_date (today e) then Some (print msg_start_future w, Inr ())
      else (case (if date_gt end_date (today e) then (print msg_end_future w, today e)
                  else (w, end_date)) of
              (w1, end_date1) \<Rightarrow>
                if date_gt start_date end_date1 then Some (print msg_start_after_end w1, Inr ())
                else fetch_for_each_company e auth_token start_date end_date1 companies w1))"

definition main :: "env \<Rightarrow> world \<Rightarrow> (world \<times> (pyerr + unit)) option" where
  "main e w =
     (case input_line prompt_companies w of
        (w1, Inl err) \<Rightarrow> Some (w1, Inl err)
      | (w1, Inr companies_input) \<Rightarrow>
     (case input_line prompt_token w1 of
        (w2, Inl err) \<Rightarrow> Some (w2, Inl err)
      | (w2, Inr token_input) \<Rightarrow>
     (case input_line prompt_start w2 of
        (w3, Inl err) \<Rightarrow> Some (w3, Inl err)
      | (w3, Inr start_input) \<Rightarrow>
     (case input_line prompt_end w3 of
        (w4, Inl err) \<Rightarrow> Some (w4, Inl err)
      | (w4, Inr end_input) \<Rightarrow>
     (case fromisoformat e (strip start_input) of
        None \<Rightarrow> Some (w4, Inl ValueError)
      | Some start_dt \<Rightarrow>
     (case fromisoformat e (strip end_input) of
        None \<Rightarrow> Some (w4, Inl ValueError)
      | Some end_dt \<Rightarrow>
          date_validation e (strip token_input) (date_of start_dt) (date_of end_dt)
            (parse_companies companies_input) w4))))))"

section \<open>A concrete world for running the program\<close>

text \<open>
  The theorems below hold for every \<open>env\<close>. To run the program on concrete input, the two
  parsers are instantiated by \<open>iso_basic\<close>, which reads the strings
  \<^verbatim>\<open>YYYY-MM-DD\<close>, \<^verbatim>\<open>YYYY-MM-DDTHH:MM:SS\<close> and \<^verbatim>\<open>YYYY-MM-DDTHH:MM:SS+HH:MM\<close> (or
  \<^verbatim>\<open>-HH:MM\<close>) as both \<^verbatim>\<open>datetime.fromisoformat\<close> and \<^verbatim>\<open>isoparse\<close> read them: a date alone is
  midnight, and a date-time is aware exactly when an offset is written. The concrete runs
  use only strings of these three forms (and strings that both parsers reject). In them
  the file system lets everything be written and \<^verbatim>\<open>strftime\<close> does not pad the year, as
  with glibc; every year in the runs has four digits.
\<close>

definition digit_val :: "nat \<Rightarrow> nat option" where
  "digit_val c =
     (if of_char CHR ''0'' \<le> c \<and> c \<le> of_char CHR ''9'' then Some (c - of_char CHR ''0'')
      else None)"

fun number :: "nat \<Rightarrow> pystr \<Rightarrow> nat option" where
  "number acc [] = Some acc"
| "number acc (c # cs) =
     (case digit_val c of None \<Rightarrow> None | Some d \<Rightarrow> number (acc * 10 + d) cs)"

definition two_digits :: "pystr \<Rightarrow> nat option" where
  "two_digits s = (if length s = 2 then number 0 s else None)"

definition iso_date :: "pystr \<Rightarrow> (nat \<times> nat \<times> nat) option" where
  "iso_date s =
     (if length s = 10 \<and> s ! 4 = (of_char CHR ''-'') \<and> s ! 7 = (of_char CHR ''-'') then
        (case (number 0 (take 4 s), two_digits (take 2 (drop 5 s)), two_digits (drop 8 s)) of
           (Some y, Some m, Some d) \<Rightarrow>
             if 1 \<le> y \<and> 1 \<le> m \<and> m \<le> 12 \<and> 1 \<le> d \<and> d \<le> days_in_month y m
             then Some (y, m, d) else None
         | _ \<Rightarrow> None)
      else None)"

definition iso_time :: "pystr \<Rightarrow> (nat \<times> nat \<times> nat) option" where
  "iso_time s =
     (if length s = 8 \<and> s ! 2 = (of_char CHR '':'') \<and> s ! 5 = (of_char CHR '':'') then
        (case (two_digits (take 2 s), two_digits (take 2 (drop 3 s)), two_digits (drop 6 s)) of
           (Some h, Some mi, Some sec) \<Rightarrow>
             if h \<le> 23 \<and> mi \<le> 59 \<and> sec \<le> 59 then Some (h, mi, sec) else None
         | _ \<Rightarrow> None)
      else None)"

text \<open>The offset in microseconds: \<open>Some None\<close> when none is written, \<open>None\<close> when it is malformed.\<close>

definition iso_offset :: "pystr \<Rightarrow> int option option" where
  "iso_offset s =
     (if s = [] then Some None
      else if length s = 6 \<and> s ! 0 \<in> set (py ''+-'') \<and> s ! 3 = (of_char CHR '':'') then
        (case (two_digits (take 2 (drop 1 s)), two_digits (drop 4 s)) of
           (Some h, Some mi) \<Rightarrow>
             if h \<le> 23 \<and> mi \<le> 59 then
               Some (Some ((if s ! 0 = (of_char CHR ''-'') then - 1 else 1)
                           * (int h * 60 + int mi) * 60000000))
             else None
         | _ \<Rightarrow> None)
      else None)"

definition iso_basic :: "pystr \<Rightarrow> pydatetime option" where
  "iso_basic s =
     (case iso_date (take 10 s) of
        None \<Rightarrow> None
      | Some (y, m, d) \<Rightarrow>
          if drop 10 s = [] then
            Some \<lparr>dt_year = y, dt_month = m, dt_day = d, dt_hour = 0, dt_minute = 0,
                  dt_second = 0, dt_microsecond = 0, dt_utcoffset = None\<rparr>
          else if s ! 10 = (of_char CHR ''T'') then
            (case (iso_time (take 8 (drop 11 s)), iso_offset (drop 19 s)) of
               (Some (h, mi, sec), Some off) \<Rightarrow>
                 Some \<lparr>dt_year = y, dt_month = m, dt_day = d, dt_hour = h, dt_minute = mi,
                       dt_second = sec, dt_microsecond = 0, dt_utcoffset = off\<rparr>
             | _ \<Rightarrow> None)
          else None)"

text \<open>
  A server that holds a list of records for every company and answers a request at an
  offset with status 200 and the records from that offset on, at most \<open>page\<close> of them; and
  a server that answers every request with a status and a body.
\<close>

definition paged_server :: "nat \<Rightarrow> json list \<Rightarrow> request list \<Rightarrow> request \<Rightarrow> pyerr + response" where
  "paged_server page records history params =
     (case params of (company, auth_token, offset) \<Rightarrow>
        Inr \<lparr>status_code = 200, resp_text = [],
             json_body = Some (JObj [(py ''reviews'', JArr (take page (drop (nat offset) records)))])\<rparr>)"

definition failing_server :: "int \<Rightarrow> pystr \<Rightarrow> request list \<Rightarrow> request \<Rightarrow> pyerr + response" where
  "failing_server status body history params =
     Inr \<lparr>status_code = status, resp_text = body, json_body = None\<rparr>"

definition run_env :: "(request list \<Rightarrow> request \<Rightarrow> pyerr + response) \<Rightarrow> pydate \<Rightarrow> env" where
  "run_env server now =
     \<lparr>fromisoformat = iso_basic, isoparse = iso_basic, today = now, http_get = server,
      makedirs_ok = (\<lambda>path. True), open_ok = (\<lambda>path. True),
      strftime_pads_year = False\<rparr>"

definition first_of_july :: pydate where
  "first_of_july = \<lparr>d_year = 2024, d_month = 7, d_day = 1\<rparr>"

definition typed :: "pystr list \<Rightarrow> world" where
  "typed lines = \<lparr>stdin = lines, stdout = [], requests = [], dirs = [], files = []\<rparr>"

definition raw_review :: "pystr \<Rightarrow> pystr \<Rightarrow> json" where
  "raw_review timestamp title =
     JObj [(py ''datetime'', JStr timestamp), (py ''title'', JStr title),
           (py ''text'', JStr (py ''fine'')), (py ''reviewer'', JStr (py ''ann'')),
           (py ''rating'', JNum 4)]"

text \<open>
  Midnight of a day as a naive date-time, which is what both parsers return for
  \<^verbatim>\<open>YYYY-MM-DD\<close>; and four records as a server may hold them, not in descending order of
  their dates.
\<close>

definition midnight :: "nat \<Rightarrow> nat \<Rightarrow> nat \<Rightarrow> pydatetime" where
  "midnight y m d =
     \<lparr>dt_year = y, dt_month = m, dt_day = d, dt_hour = 0, dt_minute = 0, dt_second = 0,
      dt_microsecond = 0, dt_utcoffset = None\<rparr>"

definition june_reviews :: "json list" where
  "june_reviews =
     [raw_review (py ''2024-06-10T09:00:00'') (py ''newer''),
      raw_review (py ''2024-06-05T12:00:00'') (py ''inside''),
      raw_review (py ''2024-05-01T08:00:00'') (py ''older''),
      raw_review (py ''2024-06-03T00:00:00'') (py ''unseen'')]"

definition kept :: "pystr \<Rightarrow> pystr \<Rightarrow> pystr \<Rightarrow> review" where
  "kept company title date =
     \<lparr>rv_source = py ''g2'', rv_company = company, rv_title = JStr title,
      rv_review = JStr (py ''fine''),
      rv_reviewer = JStr (py ''ann''), rv_rating = JNum 4, rv_date = date\<rparr>"

section \<open>The page fetcher\<close>

lemma slice_to_length: "0 \<le> n \<Longrightarrow> int (length (slice_to xs n)) \<le> n"
  by (simp add: slice_to_def)

lemma py_slice_to_len: "0 \<le> n \<Longrightarrow> py_slice_to v n = Inr u \<Longrightarrow> int (py_len u) \<le> n"
  by (cases v) (auto simp: py_slice_to_def py_len_def py_iter_def slice_to_def)

text \<open>
  Claim C5. When the server answers with a status code other than 200, \<open>fetch_g2_reviews\<close>
  prints one line that holds the company, the status code and the body of the response,
  and returns the empty list: nothing is raised. Whatever it returns, for a batch size that
  is not negative, has at most that many entries; the collector calls it with the default
  of 50.
\<close>

theorem fetch_soft_failure:
  assumes "http_get e (requests w) (company, auth_token, offset) = Inr resp"
  shows "(status_code resp \<noteq> 200 \<longrightarrow>
            fetch_g2_reviews e company auth_token offset batch_size w =
              (w\<lparr>stdout := stdout w @ [py ''API Error for '' @ company @ py '': ''
                                          @ str_int (status_code resp) @ py '' '' @ resp_text resp],
                 requests := requests w @ [(company, auth_token, offset)]\<rparr>,
               Inr (JArr [])))
       \<and> (\<forall>w1 v. 0 \<le> batch_size
             \<longrightarrow> fetch_g2_reviews e company auth_token offset batch_size w = (w1, Inr v)
             \<longrightarrow> int (py_len v) \<le> batch_size)"
proof (intro conjI impI allI)
  assume "status_code resp \<noteq> 200"
  with assms show "fetch_g2_reviews e company auth_token offset batch_size w =
      (w\<lparr>stdout := stdout w @ [py ''API Error for '' @ company @ py '': ''
                                          @ str_int (status_code resp) @ py '' '' @ resp_text resp],
                 requests := requests w @ [(company, auth_token, offset)]\<rparr>, Inr (JArr []))"
    by (simp add: fetch_g2_reviews_def print_def api_error_msg_def)
next
  fix w1 v
  assume n: "0 \<le> batch_size"
    and f: "fetch_g2_reviews e company auth_token offset batch_size w = (w1, Inr v)"
  show "int (py_len v) \<le> batch_size"
  proof (cases "status_code resp = 200")
    case True
    with f assms have "\<exists>u. py_slice_to u batch_size = Inr v"
      by (auto simp: fetch_g2_reviews_def Let_def split: option.splits sum.splits)
    with n show ?thesis by (auto dest: py_slice_to_len)
  next
    case False
    with f assms have "v = JArr []"
      by (auto simp: fetch_g2_reviews_def Let_def)
    with n show ?thesis by (simp add: py_len_def py_iter_def)
  qed
qed

theorem fetch_soft_failure_witness:
  "fetch_g2_reviews (run_env (failing_server 500 (py ''Internal Server Error'')) first_of_july)
       (py ''notion'') (py ''tok'') 0 50 (typed [])
     = (\<lparr>stdin = [], stdout = [py ''API Error for notion: 500 Internal Server Error''],
         requests = [(py ''notion'', py ''tok'', 0)], dirs = [], files = []\<rparr>,
        Inr (JArr []))"
proof -
  let ?e = "run_env (failing_server 500 (py ''Internal Server Error'')) first_of_july"
  have h: "http_get ?e (requests (typed [])) (py ''notion'', py ''tok'', 0)
             = Inr \<lparr>status_code = 500, resp_text = py ''Internal Server Error'', json_body = None\<rparr>"
    by (simp add: run_env_def failing_server_def)
  have "str_int 500 = py ''500''"
    by code_simp
  with fetch_soft_failure [OF h, of 50] show ?thesis
    by (simp add: typed_def py_def)
qed

section \<open>The collector\<close>

lemma for_reviews_append:
  "for_reviews e c s d (xs @ ys) acc =
     (case for_reviews e c s d xs acc of
        Continue a \<Rightarrow> for_reviews e c s d ys a
      | Return a \<Rightarrow> Return a
      | Raise x \<Rightarrow> Raise x)"
  by (induction xs arbitrary: acc) (auto split: flow.splits)

lemma fetch_requests:
  "fetch_g2_reviews e company auth_token offset batch_size w = (w1, res)
     \<Longrightarrow> requests w1 = requests w @ [(company, auth_token, offset)]"
  by (auto simp: fetch_g2_reviews_def Let_def print_def split: sum.splits if_splits option.splits)

text \<open>
  Claim C2. In any iteration of the loop, when the records of the page before \<open>r\<close> have
  been gone through without leaving the loop and the date of \<open>r\<close> parses to a date-time
  that compares as earlier than \<open>start_date\<close>, the collector returns the accumulator as it
  stands after those records: whatever follows \<open>r\<close> in the page plays no part, and the
  request of this page is the last one sent.
\<close>

theorem early_return:
  assumes "fetch_g2_reviews e company auth_token offset 50 w = (w1, Inr reviews)"
    and "py_iter reviews = before @ r # after"
    and "for_reviews e company start_date end_date before all_reviews = Continue acc"
    and "try_isoparse e r = Some review_date"
    and "dt_lt review_date start_date = Inr True"
  shows "while_loop e company auth_token start_date end_date (all_reviews, offset, w)
           = Some (w1, Inr acc)
         \<and> requests w1 = requests w @ [(company, auth_token, offset)]"
proof -
  have "for_body e company start_date end_date r acc = Return acc"
    using assms(4,5) by (simp add: for_body_def)
  then have "for_reviews e company start_date end_date (py_iter reviews) all_reviews = Return acc"
    using assms(2,3) by (simp add: for_reviews_append)
  moreover have "truthy reviews"
    using assms(2) by (simp add: truthy_def)
  ultimately have "while_body e company auth_token start_date end_date (all_reviews, offset, w)
      = Inr (w1, Inr acc)"
    using assms(1) by (simp add: while_body_def)
  then show ?thesis
    using fetch_requests [OF assms(1)] by (subst while_loop.simps) simp
qed


theorem early_return_witness:
  "while_loop (run_env (paged_server 50 june_reviews) first_of_july) (py ''notion'') (py ''tok'')
       (midnight 2024 6 1) (midnight 2024 6 8) ([], 0, typed [])
     = Some (\<lparr>stdin = [], stdout = [], requests = [(py ''notion'', py ''tok'', 0)], dirs = [],
               files = []\<rparr>,
             Inr [kept (py ''notion'') (py ''inside'') (py ''2024-06-05'')])"
proof -
  let ?e = "run_env (paged_server 50 june_reviews) first_of_july"
  let ?w1 = "\<lparr>stdin = [], stdout = [], requests = [(py ''notion'', py ''tok'', 0)], dirs = [],
               files = []\<rparr>"
  have f: "fetch_g2_reviews ?e (py ''notion'') (py ''tok'') 0 50 (typed []) = (?w1, Inr (JArr june_reviews))"
    by code_simp
  have p: "py_iter (JArr june_reviews)
             = [raw_review (py ''2024-06-10T09:00:00'') (py ''newer''),
                raw_review (py ''2024-06-05T12:00:00'') (py ''inside'')]
               @ raw_review (py ''2024-05-01T08:00:00'') (py ''older'')
               # [raw_review (py ''2024-06-03T00:00:00'') (py ''unseen'')]"
    by (simp add: py_iter_def june_reviews_def)
  have b: "for_reviews ?e (py ''notion'') (midnight 2024 6 1) (midnight 2024 6 8)
             [raw_review (py ''2024-06-10T09:00:00'') (py ''newer''),
              raw_review (py ''2024-06-05T12:00:00'') (py ''inside'')] []
           = Continue [kept (py ''notion'') (py ''inside'') (py ''2024-06-05'')]"
    by code_simp
  have t: "try_isoparse ?e (raw_review (py ''2024-05-01T08:00:00'') (py ''older''))
             = Some ((midnight 2024 5 1)\<lparr>dt_hour := 8\<rparr>)"
    by code_simp
  have l: "dt_lt ((midnight 2024 5 1)\<lparr>dt_hour := 8\<rparr>) (midnight 2024 6 1) = Inr True"
    by code_simp
  from early_return [OF f p b t l] show ?thesis
    by simp
qed

lemma dt_chain:
  assumes "dt_le s d = Inr True" "dt_lt d r = Inr True"
  shows "dt_lt r s = Inr False" "dt_le s r = Inr True" "dt_le r d = Inr False"
  using assms
  by (auto simp: dt_le_def dt_lt_def split: option.splits)

text \<open>
  Claim C6. For a window with \<open>start_date <= end_date\<close>, a record whose date parses to a
  date-time that compares as later than \<open>end_date\<close> leaves the accumulator as it is and
  does not leave the loop: the records after it are gone through as if it were not there,
  and when it is the last record of its page the loop goes on to the next page, at the
  offset after this page.
\<close>

theorem later_than_end_dropped:
  assumes "try_isoparse e r = Some review_date"
    and "dt_lt end_date review_date = Inr True"
    and "dt_le start_date end_date = Inr True"
  shows "for_body e company start_date end_date r all_reviews = Continue all_reviews
       \<and> for_reviews e company start_date end_date (r # rest) all_reviews
           = for_reviews e company start_date end_date rest all_reviews
       \<and> (\<forall>w1 reviews before acc.
            fetch_g2_reviews e company auth_token offset 50 w = (w1, Inr reviews)
            \<longrightarrow> py_iter reviews = before @ [r]
            \<longrightarrow> for_reviews e company start_date end_date before all_reviews = Continue acc
            \<longrightarrow> while_loop e company auth_token start_date end_date (all_reviews, offset, w)
                = while_loop e company auth_token start_date end_date
                    (acc, offset + int (length before) + 1, w1))"
proof -
  have body: "for_body e company start_date end_date r a = Continue a" for a
    using assms dt_chain [OF assms(3) assms(2)]
    by (simp add: for_body_def in_window_def)
  show ?thesis
  proof (intro conjI allI impI)
    show "for_body e company start_date end_date r all_reviews = Continue all_reviews"
      by (rule body)
    show "for_reviews e company start_date end_date (r # rest) all_reviews
           = for_reviews e company start_date end_date rest all_reviews"
      by (simp add: body)
  next
    fix w1 reviews before acc
    assume f: "fetch_g2_reviews e company auth_token offset 50 w = (w1, Inr reviews)"
      and p: "py_iter reviews = before @ [r]"
      and b: "for_reviews e company start_date end_date before all_reviews = Continue acc"
    have "for_reviews e company start_date end_date (py_iter reviews) all_reviews = Continue acc"
      using p b by (simp add: for_reviews_append body)
    moreover have "truthy reviews" "py_len reviews = length before + 1"
      using p by (simp_all add: truthy_def py_len_def)
    ultimately have "while_body e company auth_token start_date end_date (all_reviews, offset, w)
        = Inl (acc, offset + int (length before) + 1, w1)"
      using f by (simp add: while_body_def)
    then show "while_loop e company auth_token start_date end_date (all_reviews, offset, w)
                = while_loop e company auth_token start_date end_date
                    (acc, offset + int (length before) + 1, w1)"
      by (subst while_loop.simps) simp
  qed
qed

theorem later_than_end_dropped_witness:
  "for_body (run_env (paged_server 1 june_reviews) first_of_july) (py ''notion'')
       (midnight 2024 6 1) (midnight 2024 6 8) (raw_review (py ''2024-06-10T09:00:00'') (py ''newer'')) []
     = Continue []
   \<and> while_loop (run_env (paged_server 1 june_reviews) first_of_july) (py ''notion'') (py ''tok'')
       (midnight 2024 6 1) (midnight 2024 6 8) ([], 0, typed [])
     = while_loop (run_env (paged_server 1 june_reviews) first_of_july) (py ''notion'') (py ''tok'')
         (midnight 2024 6 1) (midnight 2024 6 8)
         ([], 1, \<lparr>stdin = [], stdout = [], requests = [(py ''notion'', py ''tok'', 0)], dirs = [],
                  files = []\<rparr>)"
proof -
  let ?e = "run_env (paged_server 1 june_reviews) first_of_july"
  let ?r = "raw_review (py ''2024-06-10T09:00:00'') (py ''newer'')"
  let ?w1 = "\<lparr>stdin = [], stdout = [], requests = [(py ''notion'', py ''tok'', 0)], dirs = [],
               files = []\<rparr>"
  have t: "try_isoparse ?e ?r = Some ((midnight 2024 6 10)\<lparr>dt_hour := 9\<rparr>)"
    by code_simp
  have l: "dt_lt (midnight 2024 6 8) ((midnight 2024 6 10)\<lparr>dt_hour := 9\<rparr>) = Inr True"
    by code_simp
  have v: "dt_le (midnight 2024 6 1) (midnight 2024 6 8) = Inr True"
    by code_simp
  have f: "fetch_g2_reviews ?e (py ''notion'') (py ''tok'') 0 50 (typed []) = (?w1, Inr (JArr [?r]))"
    by code_simp
  have p: "py_iter (JArr [?r]) = [] @ [?r]"
    by (simp add: py_iter_def)
  have b: "for_reviews ?e (py ''notion'') (midnight 2024 6 1) (midnight 2024 6 8) [] [] = Continue []"
    by simp
  from later_than_end_dropped [OF t l v, of "py ''notion''" "[]" "[]" "py ''tok''" 0 "typed []"] f p b
  show ?thesis
    by simp
qed

lemma while_body_next:
  assumes "while_body e c t s d (acc, off, w) = Inl (acc', off', w')"
  shows "\<exists>reviews. fetch_g2_reviews e c t off 50 w = (w', Inr reviews)
           \<and> for_reviews e c s d (py_iter reviews) acc = Continue acc'
           \<and> off' = off + int (py_len reviews) \<and> 0 < py_len reviews"
  using assms
  by (auto simp: while_body_def truthy_def py_len_def
      split: prod.splits sum.splits if_splits flow.splits)

lemma iterations_loop:
  "iterations e c t s d n st = Some st' \<Longrightarrow> while_loop e c t s d st = while_loop e c t s d st'"
proof (induction n arbitrary: st)
  case 0
  then show ?case by simp
next
  case (Suc n)
  then obtain st1 where b: "while_body e c t s d st = Inl st1"
    and i: "iterations e c t s d n st1 = Some st'"
    by (auto split: sum.splits)
  have "while_loop e c t s d st = while_loop e c t s d st1"
    using b by (subst while_loop.simps) simp
  with Suc.IH [OF i] show ?case by simp
qed

lemma iterations_offsets:
  "iterations e c t s d n (acc, off, w) = Some (acc', off', w')
     \<Longrightarrow> \<exists>offs. requests w' = requests w @ map (\<lambda>k. (c, t, k)) offs \<and> length offs = n
              \<and> sorted_wrt (<) (offs @ [off']) \<and> take 1 (offs @ [off']) = [off]"
proof (induction n arbitrary: acc off w)
  case 0
  then show ?case by simp
next
  case (Suc n)
  then obtain acc1 off1 w1 where b: "while_body e c t s d (acc, off, w) = Inl (acc1, off1, w1)"
    and i: "iterations e c t s d n (acc1, off1, w1) = Some (acc', off', w')"
    by (auto split: sum.splits)
  from while_body_next [OF b] obtain reviews where
    f: "fetch_g2_reviews e c t off 50 w = (w1, Inr reviews)" and lt: "off < off1"
    by auto
  from Suc.IH [OF i] obtain offs where
    r: "requests w' = requests w1 @ map (\<lambda>k. (c, t, k)) offs" and l: "length offs = n"
    and srt: "sorted_wrt (<) (offs @ [off'])" and hd: "take 1 (offs @ [off']) = [off1]"
    by blast
  have all: "\<forall>k\<in>set (offs @ [off']). off1 \<le> k"
  proof (cases offs)
    case Nil
    with hd show ?thesis by simp
  next
    case (Cons a as)
    with hd have "a = off1" by simp
    with srt Cons show ?thesis by auto
  qed
  have "requests w' = requests w @ map (\<lambda>k. (c, t, k)) (off # offs)"
    using r fetch_requests [OF f] by simp
  moreover have "sorted_wrt (<) ((off # offs) @ [off'])"
    using srt all lt by auto
  ultimately show ?case
    using l by (intro exI [of _ "off # offs"]) simp
qed

text \<open>
  Claim C3. Take the loop at the start of any iteration it reaches (\<open>n\<close> iterations after
  any state). The offsets of the requests sent so far, followed by the offset of the
  request to come, are strictly increasing, so no offset is requested twice. And when the
  iteration to come goes on to another one, the offset has grown by the length of the page
  just gone through, which is at least one, whatever the accumulator has become.
\<close>

theorem offsets_strictly_increase:
  assumes "iterations e company auth_token start_date end_date n (acc0, offset0, w0)
             = Some (acc, offset, w)"
  shows "(\<exists>offsets. requests w = requests w0 @ map (\<lambda>k. (company, auth_token, k)) offsets
            \<and> length offsets = n
            \<and> sorted_wrt (<) (offsets @ [offset]) \<and> distinct (offsets @ [offset]))
       \<and> (\<forall>acc1 offset1 w1.
            while_body e company auth_token start_date end_date (acc, offset, w)
              = Inl (acc1, offset1, w1)
            \<longrightarrow> (\<exists>reviews. fetch_g2_reviews e company auth_token offset 50 w = (w1, Inr reviews)
                   \<and> for_reviews e company start_date end_date (py_iter reviews) acc = Continue acc1
                   \<and> offset1 = offset + int (py_len reviews) \<and> offset < offset1))"
proof (intro conjI allI impI)
  from iterations_offsets [OF assms] obtain offsets where
    r: "requests w = requests w0 @ map (\<lambda>k. (company, auth_token, k)) offsets"
    and l: "length offsets = n" and srt: "sorted_wrt (<) (offsets @ [offset])"
    by blast
  from srt have "distinct (offsets @ [offset])"
    by (simp only: strict_sorted_iff)
  with r l srt show "\<exists>offsets. requests w = requests w0 @ map (\<lambda>k. (company, auth_token, k)) offsets
            \<and> length offsets = n
            \<and> sorted_wrt (<) (offsets @ [offset]) \<and> distinct (offsets @ [offset])"
    by blast
next
  fix acc1 offset1 w1
  assume "while_body e company auth_token start_date end_date (acc, offset, w)
            = Inl (acc1, offset1, w1)"
  from while_body_next [OF this]
  show "\<exists>reviews. fetch_g2_reviews e company auth_token offset 50 w = (w1, Inr reviews)
          \<and> for_reviews e company start_date end_date (py_iter reviews) acc = Continue acc1
          \<and> offset1 = offset + int (py_len reviews) \<and> offset < offset1"
    by auto
qed

theorem offsets_strictly_increase_witness:
  "iterations (run_env (paged_server 2 june_reviews) first_of_july) (py ''notion'') (py ''tok'')
       (midnight 2024 1 1) (midnight 2024 6 4) 2 ([], 0, typed [])
     = Some ([kept (py ''notion'') (py ''older'') (py ''2024-05-01''),
              kept (py ''notion'') (py ''unseen'') (py ''2024-06-03'')], 4,
             \<lparr>stdin = [], stdout = [],
              requests = [(py ''notion'', py ''tok'', 0), (py ''notion'', py ''tok'', 2)], dirs = [],
              files = []\<rparr>)
   \<and> (\<exists>offsets. [(py ''notion'', py ''tok'', 0 :: int), (py ''notion'', py ''tok'', 2)]
                    = map (\<lambda>k. (py ''notion'', py ''tok'', k)) offsets
          \<and> length offsets = 2 \<and> sorted_wrt (<) (offsets @ [4]) \<and> distinct (offsets @ [4]))"
proof -
  have h: "iterations (run_env (paged_server 2 june_reviews) first_of_july) (py ''notion'') (py ''tok'')
       (midnight 2024 1 1) (midnight 2024 6 4) 2 ([], 0, typed [])
     = Some ([kept (py ''notion'') (py ''older'') (py ''2024-05-01''),
              kept (py ''notion'') (py ''unseen'') (py ''2024-06-03'')], 4,
             \<lparr>stdin = [], stdout = [],
              requests = [(py ''notion'', py ''tok'', 0), (py ''notion'', py ''tok'', 2)], dirs = [],
              files = []\<rparr>)"
    by code_simp
  from offsets_strictly_increase [OF h, THEN conjunct1] h show ?thesis
    by (simp add: typed_def)
qed

lemma while_loop_Some:
  assumes "while_loop e c t s d st = Some res"
  shows "\<exists>n st'. iterations e c t s d n st = Some st' \<and> while_body e c t s d st' = Inr res"
proof (rule while_loop.raw_induct
    [where P = "\<lambda>e c t s d st res. \<exists>n st'. iterations e c t s d n st = Some st'
                   \<and> while_body e c t s d st' = Inr res", OF _ assms])
  fix loop :: "env \<Rightarrow> pystr \<Rightarrow> pystr \<Rightarrow> pydatetime \<Rightarrow> pydatetime \<Rightarrow> loop_state
      \<Rightarrow> (world \<times> (pyerr + review list)) option"
  fix e c t s d st res
  assume IH: "\<And>e c t s d st res. loop e c t s d st = Some res
      \<Longrightarrow> \<exists>n st'. iterations e c t s d n st = Some st' \<and> while_body e c t s d st' = Inr res"
    and step: "(case while_body e c t s d st of Inl st' \<Rightarrow> loop e c t s d st'
                | Inr res \<Rightarrow> Some res) = Some res"
  show "\<exists>n st'. iterations e c t s d n st = Some st' \<and> while_body e c t s d st' = Inr res"
  proof (cases "while_body e c t s d st")
    case (Inl st1)
    with step have "loop e c t s d st1 = Some res" by simp
    from IH [OF this] obtain n st' where
      i: "iterations e c t s d n st1 = Some st'" and b: "while_body e c t s d st' = Inr res"
      by blast
    from i Inl have "iterations e c t s d (Suc n) st = Some st'" by simp
    with b show ?thesis by blast
  next
    case (Inr r)
    with step have "r = res" by simp
    with Inr have "iterations e c t s d 0 st = Some st \<and> while_body e c t s d st = Inr res"
      by simp
    then show ?thesis by blast
  qed
qed

lemma while_body_done:
  assumes "while_body e c t s d (acc, off, w) = Inr (w', res)"
  shows "requests w' = requests w @ [(c, t, off)]"
  using assms
  by (auto simp: while_body_def split: prod.splits sum.splits if_splits flow.splits
      dest: fetch_requests)

lemma while_loop_requests:
  assumes "while_loop e c t s d (acc, off, w) = Some (w', res)"
  shows "\<exists>rs. requests w' = requests w @ (c, t, off) # rs"
proof -
  from while_loop_Some [OF assms] obtain n st' where
    i: "iterations e c t s d n (acc, off, w) = Some st'"
    and b: "while_body e c t s d st' = Inr (w', res)"
    by blast
  obtain acc1 off1 w1 where st': "st' = (acc1, off1, w1)" by (cases st') auto
  from iterations_offsets [OF i [unfolded st']] obtain offs where
    r: "requests w1 = requests w @ map (\<lambda>k. (c, t, k)) offs"
    and h: "take 1 (offs @ [off1]) = [off]"
    by blast
  have r2: "requests w' = requests w @ map (\<lambda>k. (c, t, k)) (offs @ [off1])"
    using while_body_done [OF b [unfolded st']] r by simp
  from h obtain ks where "offs @ [off1] = off # ks"
    by (cases "offs @ [off1]") auto
  with r2 show ?thesis by simp
qed

lemma collect_requests:
  assumes "fetch_reviews_in_date_range e c t s_str d_str w = Some (w', Inr reviews)"
  shows "\<exists>rs. requests w' = requests w @ (c, t, 0) # rs"
  using assms
  by (auto simp: fetch_reviews_in_date_range_def print_def split: option.splits
      dest!: while_loop_requests)

lemma save_requests: "save_reviews e c rs w = (w', res) \<Longrightarrow> requests w' = requests w"
  by (auto simp: save_reviews_def Let_def print_def split: if_splits)

lemma for_companies_requests:
  "for_companies e t s_str d_str cs w = Some (w', Inr u)
     \<Longrightarrow> set (requests w) \<subseteq> set (requests w') \<and> (\<forall>c\<in>set cs. (c, t, 0) \<in> set (requests w'))"
proof (induction cs arbitrary: w)
  case Nil
  then show ?case by simp
next
  case (Cons c cs)
  from Cons.prems obtain w1 reviews where
    f: "fetch_reviews_in_date_range e c t s_str d_str w = Some (w1, Inr reviews)"
    by (auto split: option.splits sum.splits prod.splits)
  from collect_requests [OF f] obtain rs where r: "requests w1 = requests w @ (c, t, 0) # rs"
    by blast
  from Cons.prems f obtain w2 where
    n: "for_companies e t s_str d_str cs w2 = Some (w', Inr u)" and q: "requests w2 = requests w1"
    by (auto simp: print_def split: if_splits sum.splits prod.splits dest: save_requests)
  from Cons.IH [OF n] q r show ?case by auto
qed


lemma fetch_for_each_company_requests:
  assumes "fetch_for_each_company e t start_date end_date cs w = Some (w', Inr u)"
  shows "\<forall>c\<in>set cs. (c, t, 0) \<in> set (requests w')"
proof -
  from assms obtain w1 where
    f: "for_companies e t (date_isoformat start_date) (date_isoformat end_date) cs w
          = Some (w1, Inr ())"
    and w': "w' = print msg_done w1"
    by (auto simp: fetch_for_each_company_def split: option.splits sum.splits prod.splits)
  from for_companies_requests [OF f] w' show ?thesis
    by (simp add: print_def)
qed

section \<open>The session driver\<close>

lemma four_inputs:
  assumes "stdin w = l1 # l2 # l3 # l4 # rest"
  shows "main e w =
     (case fromisoformat e (strip l3) of
        None \<Rightarrow> Some (w\<lparr>stdin := rest, stdout := stdout w @ [prompt_companies, prompt_token, prompt_start, prompt_end]\<rparr>, Inl ValueError)
      | Some start_dt \<Rightarrow>
     (case fromisoformat e (strip l4) of
        None \<Rightarrow> Some (w\<lparr>stdin := rest, stdout := stdout w @ [prompt_companies, prompt_token, prompt_start, prompt_end]\<rparr>, Inl ValueError)
      | Some end_dt \<Rightarrow>
          date_validation e (strip l2) (date_of start_dt) (date_of end_dt)
            (parse_companies l1) (w\<lparr>stdin := rest, stdout := stdout w @ [prompt_companies, prompt_token, prompt_start, prompt_end]\<rparr>)))"
  using assms by (simp add: main_def input_line_def print_def)

text \<open>
  Claim C4. When four lines are typed, both dates parse, the start date is after the end
  date as typed and not after today, \<open>main\<close> returns normally after the four prompts and
  the message that the start date must be before the end date: no request is sent, and no
  directory or file is made.
\<close>

theorem inverted_range_aborts:
  assumes "stdin w = l1 # l2 # l3 # l4 # rest"
    and "fromisoformat e (strip l3) = Some start_dt"
    and "fromisoformat e (strip l4) = Some end_dt"
    and "date_gt (date_of start_dt) (date_of end_dt)"
    and "\<not> date_gt (date_of start_dt) (today e)"
  shows "main e w =
           Some (w\<lparr>stdin := rest,
                   stdout := stdout w @ [prompt_companies, prompt_token, prompt_start, prompt_end,
                                         msg_start_after_end]\<rparr>,
                 Inr ())"
proof -
  have "\<not> date_gt (date_of end_dt) (today e)"
    using assms(4,5) by (auto simp: date_gt_def)
  then show ?thesis
    using assms by (simp add: four_inputs date_validation_def print_def)
qed

theorem inverted_range_aborts_witness:
  "main (run_env (paged_server 50 june_reviews) first_of_july)
       (typed [py ''notion'', py ''tok'', py ''2024-06-08'', py ''2024-06-01''])
     = Some (\<lparr>stdin = [],
               stdout = [prompt_companies, prompt_token, prompt_start, prompt_end,
                         msg_start_after_end],
               requests = [], dirs = [], files = []\<rparr>,
             Inr ())"
proof -
  let ?e = "run_env (paged_server 50 june_reviews) first_of_july"
  have s: "stdin (typed [py ''notion'', py ''tok'', py ''2024-06-08'', py ''2024-06-01''])
             = py ''notion'' # py ''tok'' # py ''2024-06-08'' # py ''2024-06-01'' # []"
    by (simp add: typed_def)
  have a: "fromisoformat ?e (strip (py ''2024-06-08'')) = Some (midnight 2024 6 8)"
    by code_simp
  have b: "fromisoformat ?e (strip (py ''2024-06-01'')) = Some (midnight 2024 6 1)"
    by code_simp
  have g: "date_gt (date_of (midnight 2024 6 8)) (date_of (midnight 2024 6 1))"
    by code_simp
  have n: "\<not> date_gt (date_of (midnight 2024 6 8)) (today ?e)"
    by code_simp
  from inverted_range_aborts [OF s a b g n] show ?thesis
    by (simp add: typed_def)
qed

text \<open>
  Claim C8. When four lines are typed and the start date or the end date does not parse,
  \<open>main\<close> ends with the \<^verbatim>\<open>ValueError\<close> of the parser, which nothing catches: only the four
  prompts were written, no request was sent and no file was made.
\<close>

theorem invalid_date_unhandled:
  assumes "stdin w = l1 # l2 # l3 # l4 # rest"
    and "fromisoformat e (strip l3) = None \<or> fromisoformat e (strip l4) = None"
  shows "main e w =
           Some (w\<lparr>stdin := rest,
                   stdout := stdout w @ [prompt_companies, prompt_token, prompt_start, prompt_end]\<rparr>,
                 Inl ValueError)"
  using assms by (auto simp: four_inputs split: option.splits)

theorem invalid_date_unhandled_witness:
  "main (run_env (paged_server 50 june_reviews) first_of_july)
       (typed [py ''notion'', py ''tok'', py ''June 1st'', py ''2024-06-08''])
     = Some (\<lparr>stdin = [],
               stdout = [prompt_companies, prompt_token, prompt_start, prompt_end],
               requests = [], dirs = [], files = []\<rparr>,
             Inl ValueError)"
proof -
  let ?e = "run_env (paged_server 50 june_reviews) first_of_july"
  have s: "stdin (typed [py ''notion'', py ''tok'', py ''June 1st'', py ''2024-06-08''])
             = py ''notion'' # py ''tok'' # py ''June 1st'' # py ''2024-06-08'' # []"
    by (simp add: typed_def)
  have a: "fromisoformat ?e (strip (py ''June 1st'')) = None"
    by code_simp
  then have "fromisoformat ?e (strip (py ''June 1st'')) = None
      \<or> fromisoformat ?e (strip (py ''2024-06-08'')) = None"
    by (rule disjI1)
  from invalid_date_unhandled [OF s this] show ?thesis
    by (simp add: typed_def)
qed

lemma split_on_pieces: "x \<in> set (split_on sep s) \<Longrightarrow> set x \<subseteq> set s - {sep}"
proof (induction s arbitrary: x)
  case Nil
  then show ?case by simp
next
  case (Cons c cs)
  show ?case
  proof (cases "c = sep")
    case True
    with Cons show ?thesis by auto
  next
    case False
    then obtain y ys where s: "split_on sep cs = y # ys"
      by (cases "split_on sep cs") (cases cs; simp split: if_splits list.splits)+
    with False Cons.prems have "x = c # y \<or> x \<in> set ys" by simp
    moreover have "set y \<subseteq> set cs - {sep}" "\<And>z. z \<in> set ys \<Longrightarrow> set z \<subseteq> set cs - {sep}"
      using Cons.IH s by simp_all
    ultimately show ?thesis using False by auto
  qed
qed

lemma strip_spaces:
  assumes "\<forall>c\<in>set x. is_space c"
  shows "strip x = []"
proof -
  have nil: "dropWhile is_space x = []"
    using assms by (simp add: dropWhile_eq_Nil_conv)
  show ?thesis unfolding strip_def nil by simp
qed

lemma parse_companies_blank:
  assumes "\<forall>c\<in>set s. c = of_char CHR '','' \<or> is_space c"
  shows "parse_companies s = []"
proof -
  have "strip x = []" if "x \<in> set (split_on (of_char CHR '','') s)" for x
    using split_on_pieces [OF that] assms by (intro strip_spaces) auto
  then show ?thesis
    by (simp add: parse_companies_def filter_empty_conv)
qed

text \<open>
  Claim C10. When the line of companies holds nothing but commas and whitespace (any
  character that \<^verbatim>\<open>strip\<close> removes, within ASCII or beyond), the list of companies is
  empty: once the dates have passed the validation, \<open>main\<close> sends no request, makes no
  file and prints no line about a company; after the prompts (and the warning, when the
  end date was in the future) it prints the final message and returns.
\<close>

theorem empty_company_list:
  assumes "stdin w = l1 # l2 # l3 # l4 # rest"
    and "\<forall>c\<in>set l1. c = of_char CHR '','' \<or> is_space c"
    and "fromisoformat e (strip l3) = Some start_dt"
    and "fromisoformat e (strip l4) = Some end_dt"
    and "\<not> date_gt (date_of start_dt) (today e)"
    and "\<not> date_gt (date_of start_dt) (date_of end_dt)"
  shows "main e w =
           Some (w\<lparr>stdin := rest,
                   stdout := stdout w @ [prompt_companies, prompt_token, prompt_start, prompt_end]
                     @ (if date_gt (date_of end_dt) (today e) then [msg_end_future] else [])
                     @ [msg_done]\<rparr>,
                 Inr ())"
  using assms(1,3-6)
  by (simp add: four_inputs date_validation_def fetch_for_each_company_def
      parse_companies_blank [OF assms(2)] print_def)

theorem empty_company_list_witness:
  "main (run_env (paged_server 50 june_reviews) first_of_july)
       (typed [[0xA0] @ py '' , ,'' @ [0x3000], py ''tok'', py ''2024-06-01'', py ''2024-06-08''])
     = Some (\<lparr>stdin = [],
               stdout = [prompt_companies, prompt_token, prompt_start, prompt_end, msg_done],
               requests = [], dirs = [], files = []\<rparr>,
             Inr ())"
proof -
  let ?e = "run_env (paged_server 50 june_reviews) first_of_july"
  have s: "stdin (typed [[0xA0] @ py '' , ,'' @ [0x3000], py ''tok'', py ''2024-06-01'',
                         py ''2024-06-08''])
             = ([0xA0] @ py '' , ,'' @ [0x3000]) # py ''tok'' # py ''2024-06-01''
               # py ''2024-06-08'' # []"
    by (simp add: typed_def)
  have c: "\<forall>c\<in>set ([0xA0] @ py '' , ,'' @ [0x3000]). c = of_char CHR '','' \<or> is_space c"
    by (simp add: is_space_def py_def)
  have a: "fromisoformat ?e (strip (py ''2024-06-01'')) = Some (midnight 2024 6 1)"
    by code_simp
  have b: "fromisoformat ?e (strip (py ''2024-06-08'')) = Some (midnight 2024 6 8)"
    by code_simp
  have n: "\<not> date_gt (date_of (midnight 2024 6 1)) (today ?e)"
    by code_simp
  have g: "\<not> date_gt (date_of (midnight 2024 6 1)) (date_of (midnight 2024 6 8))"
    by code_simp
  have f: "\<not> date_gt (date_of (midnight 2024 6 8)) (today ?e)"
    by code_simp
  from empty_company_list [OF s c a b n g] f show ?thesis
    by (simp add: typed_def)
qed

text \<open>
  Claim C7. When four lines are typed, both dates parse, the end date is after today and
  the start date is not, \<open>main\<close> prints the warning and goes on, with today as the end
  date, to the loop over all the companies typed and the final message: it does not stop
  at the validation. When the run then returns normally, the first page of every company
  has been requested.
\<close>

theorem future_end_clamped:
  assumes "stdin w = l1 # l2 # l3 # l4 # rest"
    and "fromisoformat e (strip l3) = Some start_dt"
    and "fromisoformat e (strip l4) = Some end_dt"
    and "date_gt (date_of end_dt) (today e)"
    and "\<not> date_gt (date_of start_dt) (today e)"
  shows "main e w =
           fetch_for_each_company e (strip l2) (date_of start_dt) (today e) (parse_companies l1)
             (w\<lparr>stdin := rest,
                stdout := stdout w @ [prompt_companies, prompt_token, prompt_start, prompt_end,
                                      msg_end_future]\<rparr>)
       \<and> (\<forall>w'. main e w = Some (w', Inr ())
             \<longrightarrow> (\<forall>c\<in>set (parse_companies l1). (c, strip l2, 0) \<in> set (requests w')))"
proof -
  have m: "main e w =
           fetch_for_each_company e (strip l2) (date_of start_dt) (today e) (parse_companies l1)
             (w\<lparr>stdin := rest,
                stdout := stdout w @ [prompt_companies, prompt_token, prompt_start, prompt_end,
                                      msg_end_future]\<rparr>)"
    using assms by (simp add: four_inputs date_validation_def print_def)
  show ?thesis
  proof (intro conjI allI impI)
    show "main e w =
           fetch_for_each_company e (strip l2) (date_of start_dt) (today e) (parse_companies l1)
             (w\<lparr>stdin := rest,
                stdout := stdout w @ [prompt_companies, prompt_token, prompt_start, prompt_end,
                                      msg_end_future]\<rparr>)"
      by (rule m)
  next
    fix w'
    assume r: "main e w = Some (w', Inr ())"
    have "fetch_for_each_company e (strip l2) (date_of start_dt) (today e) (parse_companies l1)
             (w\<lparr>stdin := rest,
                stdout := stdout w @ [prompt_companies, prompt_token, prompt_start, prompt_end,
                                      msg_end_future]\<rparr>) = Some (w', Inr ())"
      using r unfolding m .
    then show "\<forall>c\<in>set (parse_companies l1). (c, strip l2, 0) \<in> set (requests w')"
      by (rule fetch_for_each_company_requests)
  qed
qed

theorem future_end_clamped_witness:
  "main (run_env (paged_server 50 june_reviews) first_of_july)
       (typed [py ''notion, jira'', py '' tok '', py ''2024-06-01'', py ''2024-12-31''])
     = fetch_for_each_company (run_env (paged_server 50 june_reviews) first_of_july) (py ''tok'')
         \<lparr>d_year = 2024, d_month = 6, d_day = 1\<rparr> first_of_july [py ''notion'', py ''jira'']
         \<lparr>stdin = [],
          stdout = [prompt_companies, prompt_token, prompt_start, prompt_end, msg_end_future],
          requests = [], dirs = [], files = []\<rparr>
   \<and> main (run_env (paged_server 50 june_reviews) first_of_july)
       (typed [py ''notion, jira'', py '' tok '', py ''2024-06-01'', py ''2024-12-31''])
     = Some (\<lparr>stdin = [],
               stdout = [prompt_companies, prompt_token, prompt_start, prompt_end, msg_end_future,
                 [0x0A] @ py ''Fetching reviews for notion from 2024-06-01 to 2024-07-01...'',
                 py ''Saved 2 reviews to output/notion_g2_reviews.json'',
                 [0x0A] @ py ''Fetching reviews for jira from 2024-06-01 to 2024-07-01...'',
                 py ''Saved 2 reviews to output/jira_g2_reviews.json'',
                 msg_done],
               requests = [(py ''notion'', py ''tok'', 0), (py ''jira'', py ''tok'', 0)],
               dirs = [py ''output''],
               files = [(py ''output/notion_g2_reviews.json'',
                         [kept (py ''notion'') (py ''newer'') (py ''2024-06-10''),
                          kept (py ''notion'') (py ''inside'') (py ''2024-06-05'')]),
                        (py ''output/jira_g2_reviews.json'',
                         [kept (py ''jira'') (py ''newer'') (py ''2024-06-10''),
                          kept (py ''jira'') (py ''inside'') (py ''2024-06-05'')])]\<rparr>,
             Inr ())"
proof -
  let ?e = "run_env (paged_server 50 june_reviews) first_of_july"
  have s: "stdin (typed [py ''notion, jira'', py '' tok '', py ''2024-06-01'', py ''2024-12-31''])
             = py ''notion, jira'' # py '' tok '' # py ''2024-06-01'' # py ''2024-12-31'' # []"
    by (simp add: typed_def)
  have a: "fromisoformat ?e (strip (py ''2024-06-01'')) = Some (midnight 2024 6 1)"
    by code_simp
  have b: "fromisoformat ?e (strip (py ''2024-12-31'')) = Some (midnight 2024 12 31)"
    by code_simp
  have g: "date_gt (date_of (midnight 2024 12 31)) (today ?e)"
    by code_simp
  have n: "\<not> date_gt (date_of (midnight 2024 6 1)) (today ?e)"
    by code_simp
  have v: "strip (py '' tok '') = py ''tok''"
    "parse_companies (py ''notion, jira'') = [py ''notion'', py ''jira'']"
    "date_of (midnight 2024 6 1) = \<lparr>d_year = 2024, d_month = 6, d_day = 1\<rparr>"
    "today ?e = first_of_july"
    by code_simp+
  have r: "main ?e (typed [py ''notion, jira'', py '' tok '', py ''2024-06-01'', py ''2024-12-31''])
     = Some (\<lparr>stdin = [],
               stdout = [prompt_companies, prompt_token, prompt_start, prompt_end, msg_end_future,
                 [0x0A] @ py ''Fetching reviews for notion from 2024-06-01 to 2024-07-01...'',
                 py ''Saved 2 reviews to output/notion_g2_reviews.json'',
                 [0x0A] @ py ''Fetching reviews for jira from 2024-06-01 to 2024-07-01...'',
                 py ''Saved 2 reviews to output/jira_g2_reviews.json'',
                 msg_done],
               requests = [(py ''notion'', py ''tok'', 0), (py ''jira'', py ''tok'', 0)],
               dirs = [py ''output''],
               files = [(py ''output/notion_g2_reviews.json'',
                         [kept (py ''notion'') (py ''newer'') (py ''2024-06-10''),
                          kept (py ''notion'') (py ''inside'') (py ''2024-06-05'')]),
                        (py ''output/jira_g2_reviews.json'',
                         [kept (py ''jira'') (py ''newer'') (py ''2024-06-10''),
                          kept (py ''jira'') (py ''inside'') (py ''2024-06-05'')])]\<rparr>,
             Inr ())"
    by code_simp
  from future_end_clamped [OF s a b g n, THEN conjunct1] v r show ?thesis
    by (simp add: typed_def)
qed

lemma in_window_appended:
  assumes "try_isoparse e r = Some review_date"
    and "dt_lt review_date start_date = Inr False"
    and "dt_le start_date review_date = Inr True"
    and "dt_le review_date end_date = Inr True"
  shows "for_body e company start_date end_date r all_reviews
           = Continue (all_reviews @ [normalized e company r review_date])"
    and "rv_date (normalized e company r review_date) = strftime_ymd e review_date"
  using assms by (simp_all add: for_body_def in_window_def normalized_def)

lemma end_day_dropped:
  assumes "try_isoparse e r = Some review_date"
    and "dt_utcoffset review_date = None"
    and "date_of review_date = \<lparr>d_year = y, d_month = m, d_day = d\<rparr>"
    and "0 < dt_hour review_date \<or> 0 < dt_minute review_date \<or> 0 < dt_second review_date
           \<or> 0 < dt_microsecond review_date"
    and "dt_le start_date (midnight y m d) = Inr True"
  shows "for_body e company start_date (midnight y m d) r all_reviews = Continue all_reviews"
proof -
  have "dt_lt (midnight y m d) review_date = Inr True"
    using assms(2,3,4) by (auto simp: dt_lt_def dt_key_def midnight_def date_of_def)
  from dt_chain [OF assms(5) this] assms(1) show ?thesis
    by (simp add: for_body_def in_window_def)
qed

lemma aware_review_raises:
  assumes "try_isoparse e r = Some review_date"
    and "dt_utcoffset review_date = Some off"
    and "dt_utcoffset start_date = None"
  shows "for_body e company start_date end_date r all_reviews = Raise TypeError"
  using assms by (simp add: for_body_def dt_lt_def)

section \<open>Two runs of the whole program\<close>

text \<open>
  Claim C1. A run of the whole program at the window 2024-06-01 to 2024-06-08, with a
  server that holds one review made on 2024-06-08 at 10:30: the date of the review is the
  end date, and the review is not kept. The end date is read as midnight of that day, and
  the review is later than that.
\<close>

theorem end_date_review_dropped:
  "map_option date_of (iso_basic (py ''2024-06-08T10:30:00''))
     = map_option date_of (iso_basic (py ''2024-06-08''))
   \<and> main (run_env (paged_server 50 [raw_review (py ''2024-06-08T10:30:00'') (py ''late'')]) first_of_july)
       (typed [py ''notion'', py ''tok'', py ''2024-06-01'', py ''2024-06-08''])
     = Some (\<lparr>stdin = [],
               stdout = [prompt_companies, prompt_token, prompt_start, prompt_end,
                 [0x0A] @ py ''Fetching reviews for notion from 2024-06-01 to 2024-06-08...'',
                 py ''No reviews found for notion in this date range.'', msg_done],
               requests = [(py ''notion'', py ''tok'', 0), (py ''notion'', py ''tok'', 1)], dirs = [],
               files = []\<rparr>,
             Inr ())"
  by code_simp

text \<open>
  Claim C9. A run of the whole program with a server that holds one review whose
  timestamp carries an offset from UTC: the timestamp parses to an aware date-time, its
  comparison with the naive start date raises \<^verbatim>\<open>TypeError\<close>, and the run ends with that
  error after the first request, with no line about the review and no file.
\<close>

theorem aware_timestamp_aborts_run:
  "map_option dt_utcoffset (iso_basic (py ''2024-06-05T10:00:00+00:00'')) = Some (Some 0)
   \<and> main (run_env (paged_server 50 [raw_review (py ''2024-06-05T10:00:00+00:00'') (py ''aware'')])
            first_of_july)
       (typed [py ''notion'', py ''tok'', py ''2024-06-01'', py ''2024-06-08''])
     = Some (\<lparr>stdin = [],
               stdout = [prompt_companies, prompt_token, prompt_start, prompt_end,
                 [0x0A] @ py ''Fetching reviews for notion from 2024-06-01 to 2024-06-08...''],
               requests = [(py ''notion'', py ''tok'', 0)], dirs = [], files = []\<rparr>,
             Inl TypeError)"
  by code_simp

end
